theory Spec2Isabelle
  imports Main "HOL-Library.Sublist"
begin

section \<open>The MasterStack layout manager of swlm\<close>

text \<open>
  The development embeds \<^verbatim>\<open>src/managers/MasterStackLayoutManager.py\<close>. Every method of the
  class is a function from the manager's state to either a raised exception or the state
  after the call. The compositor is not part of the program: what it reports during a call
  (the focused window, the workspace tree) is a parameter of the handler, and what the
  program sends to it is appended, in order, to the field \<open>con\<close> of the state.
\<close>

subsection \<open>Python values used by the class\<close>

datatype error = IndexError | ValueError | AttributeError

text \<open>\<^verbatim>\<open>"%d" % n\<close> and \<^verbatim>\<open>"%s" % n\<close> for an integer \<open>n\<close>: its decimal numeral.\<close>

definition digit :: "nat \<Rightarrow> char" where
  "digit n = ''0123456789'' ! n"

function str_nat :: "nat \<Rightarrow> string" where
  "str_nat n = (if n < 10 then [digit n] else str_nat (n div 10) @ [digit (n mod 10)])"
  by pat_completeness auto
termination
  by (relation "measure (\<lambda>n. n)") auto

declare str_nat.simps [simp del]

definition str_int :: "int \<Rightarrow> string" where
  "str_int i = (if i < 0 then CHR ''-'' # str_nat (nat (- i)) else str_nat (nat i))"

text \<open>
  \<^verbatim>\<open>collections.deque\<close>, front first: index 0 is the bottom of the stack, the last element
  its top. \<^verbatim>\<open>pop\<close> and \<^verbatim>\<open>popleft\<close> raise IndexError on an empty deque, \<^verbatim>\<open>remove\<close> raises
  ValueError when the value is absent and deletes the first occurrence otherwise; an index
  below zero counts from the end, and an index outside the deque raises IndexError.
\<close>

definition deque_pop :: "int list \<Rightarrow> error + (int \<times> int list)" where
  "deque_pop d = (if d = [] then Inl IndexError else Inr (last d, butlast d))"

definition deque_popleft :: "int list \<Rightarrow> error + (int \<times> int list)" where
  "deque_popleft d = (case d of [] \<Rightarrow> Inl IndexError | x # xs \<Rightarrow> Inr (x, xs))"

definition deque_remove :: "int \<Rightarrow> int list \<Rightarrow> error + int list" where
  "deque_remove v d = (if v \<in> set d then Inr (remove1 v d) else Inl ValueError)"

definition deque_pos :: "int list \<Rightarrow> int \<Rightarrow> error + nat" where
  "deque_pos d i =
     (if i < 0
      then (if - i \<le> int (length d) then Inr (nat (int (length d) + i)) else Inl IndexError)
      else (if i < int (length d) then Inr (nat i) else Inl IndexError))"

definition deque_get :: "int list \<Rightarrow> int \<Rightarrow> error + int" where
  "deque_get d i = (case deque_pos d i of Inl e \<Rightarrow> Inl e | Inr k \<Rightarrow> Inr (d ! k))"

definition deque_set :: "int list \<Rightarrow> int \<Rightarrow> int \<Rightarrow> error + int list" where
  "deque_set d i v = (case deque_pos d i of Inl e \<Rightarrow> Inl e | Inr k \<Rightarrow> Inr (d[k := v]))"

text \<open>\<^verbatim>\<open>needle in hay\<close> on two strings: \<open>needle\<close> occurs in \<open>hay\<close> as a contiguous run.\<close>

fun str_in :: "string \<Rightarrow> string \<Rightarrow> bool" where
  "str_in needle [] = (needle = [])"
| "str_in needle (c # cs) = (prefix needle (c # cs) \<or> str_in needle cs)"

subsection \<open>Containers reported by the compositor\<close>

text \<open>
  An \<^verbatim>\<open>i3ipc.Con\<close> as far as the class reads it: \<^verbatim>\<open>id\<close>, \<^verbatim>\<open>type\<close>, \<^verbatim>\<open>floating\<close>, \<^verbatim>\<open>nodes\<close>, and
  \<^verbatim>\<open>workspace()\<close>. Of the container that \<^verbatim>\<open>workspace()\<close> returns the class reads \<^verbatim>\<open>nodes\<close>
  only, so \<open>con_workspace\<close> is that list of nodes, or \<open>None\<close> where \<^verbatim>\<open>workspace()\<close>
  returns \<^verbatim>\<open>None\<close>.
\<close>

datatype con_node =
  Con (con_id: int) (con_type: string) (con_floating: "string option")
      (con_workspace: "con_node list option") (con_nodes: "con_node list")

subsection \<open>The manager's state\<close>

text \<open>
  The fields of \<^verbatim>\<open>MasterStackLayoutManager\<close> that its methods read or write. \<open>con\<close> holds the
  strings passed to \<^verbatim>\<open>self.con.command\<close> so far, oldest first. \<^verbatim>\<open>masterId == 0\<close> is the empty
  master slot. \<^verbatim>\<open>workspaceId\<close>, \<^verbatim>\<open>workspaceNum\<close> and \<^verbatim>\<open>debug\<close> are set by the constructor
  and read by no method of the class; \<^verbatim>\<open>self.log\<close> and \<^verbatim>\<open>self.logCaller\<close> belong to the base
  class, print when \<^verbatim>\<open>debug\<close> is set, and every value formatted into their messages is an
  integer, so they are left out. \<^verbatim>\<open>masterWidth\<close> comes from the option parser, which is not
  part of the class; it is taken as an optional integer.
\<close>

record manager =
  con :: "string list"
  masterId :: int
  stackIds :: "int list"
  masterWidth :: "int option"
  stackLayout :: "string option"

definition command :: "string \<Rightarrow> manager \<Rightarrow> manager" where
  "command c s = s\<lparr>con := con s @ [c]\<rparr>"

definition new_manager :: "int option \<Rightarrow> string option \<Rightarrow> manager" where
  "new_manager width layout =
     \<lparr>con = [], masterId = 0, stackIds = [], masterWidth = width, stackLayout = layout\<rparr>"

subsection \<open>Helpers of the class\<close>

definition isExcluded :: "con_node option \<Rightarrow> bool" where
  "isExcluded window =
     (case window of
        None \<Rightarrow> True
      | Some w \<Rightarrow>
          if con_type w \<noteq> ''con'' then True
          else if con_workspace w = None then True
          else if (case con_floating w of None \<Rightarrow> False | Some f \<Rightarrow> str_in ''on'' f) then True
          else False)"

definition setMasterWidth :: "manager \<Rightarrow> manager" where
  "setMasterWidth s =
     (case masterWidth s of
        None \<Rightarrow> s
      | Some w \<Rightarrow>
          command (''[con_id='' @ str_int (masterId s) @ ''] resize set '' @ str_int w @ '' 0 ppt'') s)"

definition moveWindow :: "int \<Rightarrow> int \<Rightarrow> manager \<Rightarrow> manager" where
  "moveWindow moveId targetId s =
     (let s = command (''[con_id='' @ str_int targetId @ ''] mark --add move_target'') s;
          s = command (''[con_id='' @ str_int moveId @ ''] move container to mark move_target'') s;
          s = command (''[con_id='' @ str_int targetId @ ''] unmark move_target'') s
      in s)"

definition swap_command :: "int \<Rightarrow> int \<Rightarrow> string" where
  "swap_command a b = ''[con_id='' @ str_int a @ ''] swap container with con_id '' @ str_int b"

definition focus_command :: "int \<Rightarrow> string" where
  "focus_command a = ''[con_id='' @ str_int a @ ''] focus''"

subsection \<open>Insertion and removal\<close>

definition pushWindow :: "int \<Rightarrow> manager \<Rightarrow> error + manager" where
  "pushWindow windowId s =
     (if masterId s = 0 then Inr (s\<lparr>masterId := windowId\<rparr>)
      else if length (stackIds s) = 0 then
        (let s = moveWindow windowId (masterId s) s;
             s = s\<lparr>stackIds := stackIds s @ [masterId s]\<rparr>;
             s = command ''move left'' s;
             s = s\<lparr>masterId := windowId\<rparr>
         in case deque_get (stackIds s) 0 of
              Inl e \<Rightarrow> Inl e
            | Inr logged \<Rightarrow> Inr (setMasterWidth s))
      else
        (case deque_get (stackIds s) (- 1) of
           Inl e \<Rightarrow> Inl e
         | Inr targetId \<Rightarrow>
             (let s = moveWindow windowId targetId s;
                  s = command (focus_command windowId) s;
                  s = command ''move up'' s;
                  prevMasterId = masterId s;
                  s = command (swap_command windowId prevMasterId) s;
                  s = s\<lparr>stackIds := stackIds s @ [masterId s]\<rparr>;
                  s = s\<lparr>masterId := windowId\<rparr>
              in Inr (setMasterWidth s))))"

definition popWindow :: "manager \<Rightarrow> error + manager" where
  "popWindow s =
     (if length (stackIds s) = 0 then Inr (s\<lparr>masterId := 0\<rparr>)
      else
        (case deque_pop (stackIds s) of
           Inl e \<Rightarrow> Inl e
         | Inr (popped, rest) \<Rightarrow>
             (let s = s\<lparr>stackIds := rest, masterId := popped\<rparr>;
                  s = command (focus_command (masterId s)) s
              in if length (stackIds s) \<noteq> 0
                 then Inr (setMasterWidth (command ''move left'' s))
                 else Inr s)))"

definition removeWindow :: "int \<Rightarrow> manager \<Rightarrow> error + manager" where
  "removeWindow windowId s =
     (if masterId s = windowId then popWindow s
      else
        (case deque_remove windowId (stackIds s) of
           Inl e \<Rightarrow> Inr s
         | Inr rest \<Rightarrow> Inr (s\<lparr>stackIds := rest\<rparr>)))"

subsection \<open>Stack orientation and reconciliation\<close>

definition setStackLayout :: "manager \<Rightarrow> error + manager" where
  "setStackLayout s =
     (if length (stackIds s) \<noteq> 0 then
        (let layout = (case stackLayout s of
                         None \<Rightarrow> ''splitv''
                       | Some l \<Rightarrow> if l = [] then ''splitv'' else l)
         in case deque_get (stackIds s) 0 of
              Inl e \<Rightarrow> Inl e
            | Inr bottom \<Rightarrow>
                (let s = command (''[con_id='' @ str_int bottom @ ''] split vertical'') s;
                     s = command (''[con_id='' @ str_int bottom @ ''] layout '' @ layout) s
                 in Inr s))
      else
        (let s = command (''[con_id='' @ str_int (masterId s) @ ''] split horizontal'') s;
             s = command (''[con_id='' @ str_int (masterId s) @ ''] layout '' @ ''splith'') s
         in Inr s))"

text \<open>
  The first loop of \<^verbatim>\<open>arrangeExistingLayout\<close>. The inner loop runs once for every child
  \<open>conNode\<close> of \<open>node\<close>; its body reads \<open>node\<close>, as the source does.
\<close>

fun collect_children :: "con_node \<Rightarrow> con_node list \<Rightarrow> int list \<Rightarrow> int list" where
  "collect_children node [] untracked = untracked"
| "collect_children node (conNode # rest) untracked =
     (if isExcluded (Some node) then collect_children node rest untracked
      else collect_children node rest (untracked @ [con_id node]))"

fun collect_untracked :: "con_node list \<Rightarrow> int list \<Rightarrow> int list" where
  "collect_untracked [] untracked = untracked"
| "collect_untracked (node # rest) untracked =
     (if length (con_nodes node) = 0 then
        (if isExcluded (Some node) then collect_untracked rest untracked
         else collect_untracked rest (untracked @ [con_id node]))
      else if length (con_nodes node) > 0 then
        collect_untracked rest (collect_children node (con_nodes node) untracked)
      else collect_untracked rest untracked)"

text \<open>The second loop: every collected identifier that the model does not hold is pushed.\<close>

fun push_untracked :: "int list \<Rightarrow> manager \<Rightarrow> error + manager" where
  "push_untracked [] s = Inr s"
| "push_untracked (windowId # rest) s =
     (if windowId \<noteq> masterId s \<and> windowId \<notin> set (stackIds s) then
        (case setStackLayout s of
           Inl e \<Rightarrow> Inl e
         | Inr s \<Rightarrow>
             (case pushWindow windowId (command (focus_command windowId) s) of
                Inl e \<Rightarrow> Inl e
              | Inr s \<Rightarrow> push_untracked rest s))
      else push_untracked rest s)"

text \<open>
  \<open>focused\<close> is what \<^verbatim>\<open>utils.findFocused(self.con)\<close> returns. Calling \<^verbatim>\<open>workspace()\<close> on
  \<^verbatim>\<open>None\<close>, or reading \<^verbatim>\<open>nodes\<close> of \<^verbatim>\<open>None\<close>, raises AttributeError.
\<close>

definition arrangeExistingLayout :: "con_node option \<Rightarrow> manager \<Rightarrow> error + manager" where
  "arrangeExistingLayout focused s =
     (case focused of
        None \<Rightarrow> Inl AttributeError
      | Some f \<Rightarrow>
          (case con_workspace f of
             None \<Rightarrow> Inl AttributeError
           | Some nodes \<Rightarrow>
               (case push_untracked (collect_untracked nodes []) s of
                  Inl e \<Rightarrow> Inl e
                | Inr s \<Rightarrow> setStackLayout s)))"

text \<open>The constructor: the empty model, then the reconciliation pass.\<close>

definition manager_init :: "int option \<Rightarrow> string option \<Rightarrow> con_node option \<Rightarrow> error + manager" where
  "manager_init width layout focused = arrangeExistingLayout focused (new_manager width layout)"

subsection \<open>Navigation\<close>

text \<open>The branch of \<^verbatim>\<open>moveUp\<close> that exchanges the master with the top of the stack.\<close>

definition moveUp_swap :: "manager \<Rightarrow> error + manager" where
  "moveUp_swap s =
     (case deque_pop (stackIds s) of
        Inl e \<Rightarrow> Inl e
      | Inr (targetId, rest) \<Rightarrow>
          (let s = s\<lparr>stackIds := rest\<rparr>;
               s = command (swap_command targetId (masterId s)) s;
               s = s\<lparr>stackIds := stackIds s @ [masterId s]\<rparr>;
               s = s\<lparr>masterId := targetId\<rparr>
           in Inr s))"

text \<open>
  The loops \<^verbatim>\<open>for i in range(len(self.stackIds))\<close> run over the list of indices they are
  given and return at the first index that holds the focused identifier.
\<close>

fun moveUp_loop :: "int \<Rightarrow> nat list \<Rightarrow> manager \<Rightarrow> error + manager" where
  "moveUp_loop focusedId [] s = Inr s"
| "moveUp_loop focusedId (i # rest) s =
     (case deque_get (stackIds s) (int i) of
        Inl e \<Rightarrow> Inl e
      | Inr hereId \<Rightarrow>
          if hereId = focusedId then
            (case deque_get (stackIds s) (int i + 1) of
               Inl e \<Rightarrow> Inl e
             | Inr aboveId \<Rightarrow>
                 (let s = command (swap_command focusedId aboveId) s
                  in case deque_set (stackIds s) (int i) aboveId of
                       Inl e \<Rightarrow> Inl e
                     | Inr d \<Rightarrow>
                         (case deque_set d (int i + 1) focusedId of
                            Inl e \<Rightarrow> Inl e
                          | Inr d \<Rightarrow> Inr (s\<lparr>stackIds := d\<rparr>))))
          else moveUp_loop focusedId rest s)"

definition moveUp :: "con_node option \<Rightarrow> manager \<Rightarrow> error + manager" where
  "moveUp focusedWindow s =
     (case focusedWindow of
        None \<Rightarrow> Inr s
      | Some fw \<Rightarrow>
          if length (stackIds s) < 2 then moveUp_swap s
          else
            (case deque_get (stackIds s) (- 1) of
               Inl e \<Rightarrow> Inl e
             | Inr topId \<Rightarrow>
                 if con_id fw = topId then moveUp_swap s
                 else moveUp_loop (con_id fw) [0 ..< length (stackIds s)] s))"

fun moveDown_loop :: "int \<Rightarrow> nat list \<Rightarrow> manager \<Rightarrow> error + manager" where
  "moveDown_loop focusedId [] s = Inr s"
| "moveDown_loop focusedId (i # rest) s =
     (case deque_get (stackIds s) (int i) of
        Inl e \<Rightarrow> Inl e
      | Inr hereId \<Rightarrow>
          if hereId = focusedId then
            (case deque_get (stackIds s) (int i - 1) of
               Inl e \<Rightarrow> Inl e
             | Inr belowId \<Rightarrow>
                 (let s = command (swap_command focusedId belowId) s
                  in case deque_set (stackIds s) (int i) belowId of
                       Inl e \<Rightarrow> Inl e
                     | Inr d \<Rightarrow>
                         (case deque_set d (int i - 1) focusedId of
                            Inl e \<Rightarrow> Inl e
                          | Inr d \<Rightarrow> Inr (s\<lparr>stackIds := d\<rparr>))))
          else moveDown_loop focusedId rest s)"

definition moveDown :: "con_node option \<Rightarrow> manager \<Rightarrow> error + manager" where
  "moveDown focusedWindow s =
     (if length (stackIds s) < 2 then Inr s
      else
        (case focusedWindow of
           None \<Rightarrow> Inr s
         | Some fw \<Rightarrow>
             (case deque_get (stackIds s) 0 of
                Inl e \<Rightarrow> Inl e
              | Inr bottomId \<Rightarrow>
                  if con_id fw = bottomId then Inr s
                  else if con_id fw = masterId s then
                    (case deque_get (stackIds s) (- 1) of
                       Inl e \<Rightarrow> Inl e
                     | Inr topId \<Rightarrow>
                         (let s = command (swap_command (con_id fw) topId) s
                          in case deque_pop (stackIds s) of
                               Inl e \<Rightarrow> Inl e
                             | Inr (popped, rest) \<Rightarrow>
                                 Inr (s\<lparr>masterId := popped, stackIds := rest @ [con_id fw]\<rparr>)))
                  else moveDown_loop (con_id fw) [0 ..< length (stackIds s)] s)))"

definition rotateCCW :: "manager \<Rightarrow> error + manager" where
  "rotateCCW s =
     (if length (stackIds s) < 2 then Inr s
      else
        (case deque_pop (stackIds s) of
           Inl e \<Rightarrow> Inl e
         | Inr (newMasterId, rest) \<Rightarrow>
             (let s = s\<lparr>stackIds := rest\<rparr>;
                  prevMasterId = masterId s
              in case deque_get (stackIds s) 0 of
                   Inl e \<Rightarrow> Inl e
                 | Inr bottomId \<Rightarrow>
                     (let s = command (swap_command newMasterId prevMasterId) s;
                          s = moveWindow prevMasterId bottomId s;
                          s = s\<lparr>masterId := newMasterId\<rparr>;
                          s = s\<lparr>stackIds := prevMasterId # stackIds s\<rparr>
                      in Inr s))))"

definition rotateCW :: "manager \<Rightarrow> error + manager" where
  "rotateCW s =
     (if length (stackIds s) < 2 then Inr s
      else
        (case deque_popleft (stackIds s) of
           Inl e \<Rightarrow> Inl e
         | Inr (newMasterId, rest) \<Rightarrow>
             (let s = s\<lparr>stackIds := rest\<rparr>;
                  prevMasterId = masterId s
              in case deque_get (stackIds s) (- 1) of
                   Inl e \<Rightarrow> Inl e
                 | Inr topId \<Rightarrow>
                     (let s = command (swap_command newMasterId prevMasterId) s;
                          s = moveWindow prevMasterId topId s;
                          s = command (focus_command prevMasterId) s;
                          s = command ''move up'' s;
                          s = command (focus_command newMasterId) s;
                          s = s\<lparr>masterId := newMasterId\<rparr>;
                          s = s\<lparr>stackIds := stackIds s @ [prevMasterId]\<rparr>
                      in Inr s))))"

fun swapMaster_loop :: "int \<Rightarrow> nat list \<Rightarrow> manager \<Rightarrow> error + manager" where
  "swapMaster_loop focusedId [] s = Inr s"
| "swapMaster_loop focusedId (i # rest) s =
     (case deque_get (stackIds s) (int i) of
        Inl e \<Rightarrow> Inl e
      | Inr hereId \<Rightarrow>
          if hereId = focusedId then
            (let s = command (swap_command focusedId (masterId s)) s;
                 s = command (focus_command (masterId s)) s
             in case deque_set (stackIds s) (int i) (masterId s) of
                  Inl e \<Rightarrow> Inl e
                | Inr d \<Rightarrow> Inr (s\<lparr>stackIds := d, masterId := focusedId\<rparr>))
          else swapMaster_loop focusedId rest s)"

definition swapMaster :: "con_node option \<Rightarrow> manager \<Rightarrow> error + manager" where
  "swapMaster focusedWindow s =
     (if length (stackIds s) = 0 then Inr s
      else
        (case focusedWindow of
           None \<Rightarrow> Inr s
         | Some fw \<Rightarrow>
             if con_id fw = masterId s then
               (case deque_pop (stackIds s) of
                  Inl e \<Rightarrow> Inl e
                | Inr (targetId, rest) \<Rightarrow>
                    (let s = s\<lparr>stackIds := rest\<rparr>;
                         s = command (swap_command targetId (masterId s)) s;
                         s = s\<lparr>stackIds := stackIds s @ [masterId s]\<rparr>;
                         s = s\<lparr>masterId := targetId\<rparr>
                     in Inr s))
             else swapMaster_loop (con_id fw) [0 ..< length (stackIds s)] s))"

subsection \<open>Notification handlers\<close>

text \<open>
  \<open>focused\<close> is the window \<^verbatim>\<open>utils.findFocused(self.con)\<close> returns while the handler runs;
  \<^verbatim>\<open>windowRemoved\<close> reads \<^verbatim>\<open>event.container.id\<close> instead.
\<close>

definition windowAdded :: "con_node option \<Rightarrow> manager \<Rightarrow> error + manager" where
  "windowAdded focused s =
     (if isExcluded focused then Inr s
      else (case focused of
              None \<Rightarrow> Inl AttributeError
            | Some newWindow \<Rightarrow> pushWindow (con_id newWindow) s))"

definition windowRemoved :: "int \<Rightarrow> manager \<Rightarrow> error + manager" where
  "windowRemoved containerId s = removeWindow containerId s"

definition windowFocused :: "con_node option \<Rightarrow> manager \<Rightarrow> error + manager" where
  "windowFocused focused s = (if isExcluded focused then Inr s else setStackLayout s)"

definition onBinding :: "con_node option \<Rightarrow> string \<Rightarrow> manager \<Rightarrow> error + manager" where
  "onBinding focused cmd s =
     (if cmd = ''nop swlm move up'' then moveUp focused s
      else if cmd = ''nop swlm move down'' then moveDown focused s
      else if cmd = ''nop swlm rotate ccw'' \<or> cmd = ''nop swlm move left'' then rotateCCW s
      else if cmd = ''nop swlm rotate cw'' \<or> cmd = ''nop swlm move right'' then rotateCW s
      else if cmd = ''nop swlm swap master'' then swapMaster focused s
      else Inr s)"

subsection \<open>Sequences of calls\<close>

text \<open>
  \<open>and_then\<close> runs a second call on the state the first one returned; an exception of the
  first call is the result. \<open>model\<close> reads the logical model, the master slot and the stack,
  off a result.
\<close>

definition and_then :: "error + manager \<Rightarrow> (manager \<Rightarrow> error + manager) \<Rightarrow> error + manager" where
  "and_then r f = (case r of Inl e \<Rightarrow> Inl e | Inr s \<Rightarrow> f s)"

definition model :: "error + manager \<Rightarrow> error + int \<times> int list" where
  "model r = (case r of Inl e \<Rightarrow> Inl e | Inr s \<Rightarrow> Inr (masterId s, stackIds s))"

text \<open>
  The operations that write the model, as values, so that a history of the manager is a list.
  The navigation operations carry the window the compositor reports as focused during the
  call. An exception leaves the object as it was when it was raised; the only raising
  statements of these operations come before the operation's first write, so \<open>step\<close> keeps
  the state of before the call.
\<close>

datatype operation =
    PushWindow int
  | RemoveWindow int
  | PopWindow
  | MoveUp "con_node option"
  | MoveDown "con_node option"
  | RotateCCW
  | RotateCW
  | SwapMaster "con_node option"

fun perform :: "operation \<Rightarrow> manager \<Rightarrow> error + manager" where
  "perform (PushWindow windowId) s = pushWindow windowId s"
| "perform (RemoveWindow windowId) s = removeWindow windowId s"
| "perform PopWindow s = popWindow s"
| "perform (MoveUp focused) s = moveUp focused s"
| "perform (MoveDown focused) s = moveDown focused s"
| "perform RotateCCW s = rotateCCW s"
| "perform RotateCW s = rotateCW s"
| "perform (SwapMaster focused) s = swapMaster focused s"

definition step :: "manager \<Rightarrow> operation \<Rightarrow> manager" where
  "step s op = (case perform op s of Inl e \<Rightarrow> s | Inr s' \<Rightarrow> s')"

definition run :: "operation list \<Rightarrow> manager \<Rightarrow> manager" where
  "run ops s = foldl step s ops"

text \<open>A tiled, non-floating leaf window with the given identifier.\<close>

definition leaf :: "int \<Rightarrow> con_node" where
  "leaf i = Con i ''con'' None (Some []) []"

text \<open>
  The invariant carried through a history: no identifier in the stack is 0, and the master
  slot holds an identifier whenever the stack holds one.
\<close>

definition tracked_nonzero :: "manager \<Rightarrow> bool" where
  "tracked_nonzero s = (0 \<notin> set (stackIds s) \<and> (stackIds s = [] \<or> masterId s \<noteq> 0))"

section \<open>Properties\<close>

subsection \<open>Fields left alone by the command helpers\<close>

lemma command_fields [simp]:
  "masterId (command c s) = masterId s"
  "stackIds (command c s) = stackIds s"
  "masterWidth (command c s) = masterWidth s"
  "stackLayout (command c s) = stackLayout s"
  "con (command c s) = con s @ [c]"
  by (simp_all add: command_def)

lemma setMasterWidth_fields [simp]:
  "masterId (setMasterWidth s) = masterId s"
  "stackIds (setMasterWidth s) = stackIds s"
  "masterWidth (setMasterWidth s) = masterWidth s"
  "stackLayout (setMasterWidth s) = stackLayout s"
  by (simp_all add: setMasterWidth_def split: option.splits)

lemma moveWindow_fields [simp]:
  "masterId (moveWindow a b s) = masterId s"
  "stackIds (moveWindow a b s) = stackIds s"
  "masterWidth (moveWindow a b s) = masterWidth s"
  "stackLayout (moveWindow a b s) = stackLayout s"
  by (simp_all add: moveWindow_def)

lemma deque_get_first: "deque_get d 0 = (if d = [] then Inl IndexError else Inr (hd d))"
  by (cases d) (simp_all add: deque_get_def deque_pos_def)

lemma deque_get_last: "deque_get d (- 1) = (if d = [] then Inl IndexError else Inr (last d))"
proof (cases "d = []")
  case True
  then show ?thesis by (simp add: deque_get_def deque_pos_def)
next
  case False
  then have len: "Suc 0 \<le> length d" by (cases d) simp_all
  then have "nat (int (length d) - 1) = length d - 1" by simp
  with False len show ?thesis
    by (simp add: deque_get_def deque_pos_def last_conv_nth)
qed

lemma deque_get_nat:
  "deque_get d (int i) = (if i < length d then Inr (d ! i) else Inl IndexError)"
  by (simp add: deque_get_def deque_pos_def)

lemma deque_get_succ:
  "deque_get d (int i + 1) = (if Suc i < length d then Inr (d ! Suc i) else Inl IndexError)"
  using deque_get_nat [of d "Suc i"] by (simp add: add.commute)

lemma deque_set_nat:
  "deque_set d (int i) v = (if i < length d then Inr (d[i := v]) else Inl IndexError)"
  by (simp add: deque_set_def deque_pos_def)

lemma deque_set_succ:
  "deque_set d (int i + 1) v = (if Suc i < length d then Inr (d[Suc i := v]) else Inl IndexError)"
  using deque_set_nat [of d "Suc i"] by (simp add: add.commute)

lemma deque_get_pred:
  "deque_get d (int (Suc i) - 1) = (if i < length d then Inr (d ! i) else Inl IndexError)"
  using deque_get_nat [of d i] by simp

lemma deque_set_pred:
  "deque_set d (int (Suc i) - 1) v = (if i < length d then Inr (d[i := v]) else Inl IndexError)"
  using deque_set_nat [of d i] by simp

lemma deque_get_mem: "deque_get d i = Inr v \<Longrightarrow> v \<in> set d"
  by (auto simp: deque_get_def deque_pos_def split: if_splits)

lemma deque_set_shape:
  "deque_set d i v = Inr d' \<Longrightarrow> set d' \<subseteq> insert v (set d) \<and> length d' = length d"
  by (auto simp: deque_set_def deque_pos_def split: if_splits dest: subsetD [OF set_update_subset_insert])

lemma pushWindow_result:
  "\<exists>s'. pushWindow w s = Inr s' \<and> masterId s' = w
     \<and> stackIds s' = (if masterId s = 0 then stackIds s else stackIds s @ [masterId s])
     \<and> masterWidth s' = masterWidth s \<and> stackLayout s' = stackLayout s"
  by (simp add: pushWindow_def deque_get_first deque_get_last Let_def)

lemma popWindow_result:
  "\<exists>s'. popWindow s = Inr s'
     \<and> masterId s' = (if stackIds s = [] then 0 else last (stackIds s))
     \<and> stackIds s' = butlast (stackIds s)
     \<and> masterWidth s' = masterWidth s \<and> stackLayout s' = stackLayout s"
  by (simp add: popWindow_def deque_pop_def Let_def)

lemma removeWindow_result:
  "\<exists>s'. removeWindow w s = Inr s'
     \<and> masterId s' = (if masterId s = w then (if stackIds s = [] then 0 else last (stackIds s)) else masterId s)
     \<and> stackIds s' = (if masterId s = w then butlast (stackIds s) else remove1 w (stackIds s))
     \<and> masterWidth s' = masterWidth s \<and> stackLayout s' = stackLayout s"
  using popWindow_result [of s]
  by (auto simp: removeWindow_def deque_remove_def remove1_idem)

subsection \<open>Insertion and removal, step by step\<close>

text \<open>
  C3. From the empty model, pushing window 1 gives master 1 and an empty stack; pushing
  window 2 gives master 2 and stack [1]; pushing window 3 gives master 3 and stack [1, 2],
  bottom first; removing window 3, the master, gives master 2 and stack [1]; removing
  window 1, which is in the stack, gives master 2 and an empty stack. No call raises, and
  the configured width and stack layout are arbitrary.
\<close>

theorem scenario_push_remove:
  "model (pushWindow 1 (new_manager w l)) = Inr (1, [])
   \<and> model (and_then (pushWindow 1 (new_manager w l)) (pushWindow 2)) = Inr (2, [1])
   \<and> model (and_then (and_then (pushWindow 1 (new_manager w l)) (pushWindow 2)) (pushWindow 3))
       = Inr (3, [1, 2])
   \<and> model (and_then (and_then (and_then (pushWindow 1 (new_manager w l)) (pushWindow 2))
         (pushWindow 3)) (removeWindow 3)) = Inr (2, [1])
   \<and> model (and_then (and_then (and_then (and_then (pushWindow 1 (new_manager w l))
         (pushWindow 2)) (pushWindow 3)) (removeWindow 3)) (removeWindow 1)) = Inr (2, [])"
proof -
  obtain s1 where s1: "pushWindow 1 (new_manager w l) = Inr s1"
      "masterId s1 = 1" "stackIds s1 = []"
    using pushWindow_result [of 1 "new_manager w l"] by (auto simp: new_manager_def)
  obtain s2 where s2: "pushWindow 2 s1 = Inr s2" "masterId s2 = 2" "stackIds s2 = [1]"
    using pushWindow_result [of 2 s1] s1 by auto
  obtain s3 where s3: "pushWindow 3 s2 = Inr s3" "masterId s3 = 3" "stackIds s3 = [1, 2]"
    using pushWindow_result [of 3 s2] s2 by auto
  obtain s4 where s4: "removeWindow 3 s3 = Inr s4" "masterId s4 = 2" "stackIds s4 = [1]"
    using removeWindow_result [of 3 s3] s3 by auto
  obtain s5 where s5: "removeWindow 1 s4 = Inr s5" "masterId s5 = 2" "stackIds s5 = []"
    using removeWindow_result [of 1 s4] s4 by auto
  show ?thesis
    using s1 s2 s3 s4 s5 by (simp add: and_then_def model_def)
qed

text \<open>
  C4. Whatever the state and the pushed identifier, \<^verbatim>\<open>pushWindow\<close> returns, the master slot
  then holds the pushed identifier, and the stack is the old stack in its old order with
  the old master appended at its top; if the master slot was empty there is no old master
  and the stack is as it was.
\<close>

theorem pushWindow_master_and_order:
  "\<exists>s'. pushWindow windowId s = Inr s' \<and> masterId s' = windowId
     \<and> stackIds s' = (if masterId s = 0 then stackIds s else stackIds s @ [masterId s])"
  using pushWindow_result [of windowId s] by blast

theorem pushWindow_master_and_order_witness:
  "\<exists>s'. pushWindow 7 \<lparr>con = [], masterId = 3, stackIds = [1, 2], masterWidth = None, stackLayout = None\<rparr> = Inr s'
      \<and> masterId s' = 7 \<and> stackIds s' = [1, 2, 3]"
  using pushWindow_master_and_order
    [of 7 "\<lparr>con = [], masterId = 3, stackIds = [1, 2], masterWidth = None, stackLayout = None\<rparr>"]
  by simp

text \<open>
  C10. The empty master slot is the integer 0. Pushing identifier 0 into the empty model
  returns the empty model itself, with no command sent, so that the next pushed identifier
  becomes master as a first window does, again with no command sent; the same holds in any
  state whose master slot holds 0, and popping the last window writes 0 into the slot.
\<close>

theorem zero_is_the_empty_master:
  "new_manager w l = \<lparr>con = [], masterId = 0, stackIds = [], masterWidth = w, stackLayout = l\<rparr>
   \<and> pushWindow 0 (new_manager w l) = Inr (new_manager w l)
   \<and> and_then (pushWindow 0 (new_manager w l)) (pushWindow x) = Inr ((new_manager w l)\<lparr>masterId := x\<rparr>)
   \<and> pushWindow x (s\<lparr>masterId := 0\<rparr>) = Inr (s\<lparr>masterId := x\<rparr>)
   \<and> popWindow (s\<lparr>stackIds := []\<rparr>) = Inr (s\<lparr>stackIds := [], masterId := 0\<rparr>)"
  by (simp add: new_manager_def pushWindow_def popWindow_def and_then_def)

subsection \<open>Rotation\<close>

lemma rotateCCW_short: "length (stackIds s) < 2 \<Longrightarrow> rotateCCW s = Inr s"
  by (simp add: rotateCCW_def)

lemma rotateCW_short: "length (stackIds s) < 2 \<Longrightarrow> rotateCW s = Inr s"
  by (simp add: rotateCW_def)

lemma rotateCCW_result:
  assumes "2 \<le> length (stackIds s)"
  shows "\<exists>s'. rotateCCW s = Inr s' \<and> masterId s' = last (stackIds s)
           \<and> stackIds s' = masterId s # butlast (stackIds s)
           \<and> masterWidth s' = masterWidth s \<and> stackLayout s' = stackLayout s"
proof -
  from assms have ne: "stackIds s \<noteq> []" and ne': "butlast (stackIds s) \<noteq> []"
    by (auto simp: butlast_conv_take)
  then show ?thesis
    using assms by (simp add: rotateCCW_def deque_pop_def deque_get_first Let_def)
qed

lemma rotateCW_result:
  assumes "2 \<le> length (stackIds s)"
  shows "\<exists>s'. rotateCW s = Inr s' \<and> masterId s' = hd (stackIds s)
           \<and> stackIds s' = tl (stackIds s) @ [masterId s]
           \<and> masterWidth s' = masterWidth s \<and> stackLayout s' = stackLayout s"
proof -
  from assms obtain x y ys where d: "stackIds s = x # y # ys"
    by (cases "stackIds s"; cases "tl (stackIds s)") auto
  then show ?thesis
    by (simp add: rotateCW_def deque_popleft_def deque_get_last Let_def)
qed

text \<open>
  C7. In every state whose stack holds at least two identifiers, \<^verbatim>\<open>rotateCCW\<close> followed by
  \<^verbatim>\<open>rotateCW\<close> returns, and the master identifier and the stack, in its order, are those of
  before the two rotations.
\<close>

theorem rotateCCW_then_rotateCW:
  assumes "2 \<le> length (stackIds s)"
  shows "\<exists>s1 s2. rotateCCW s = Inr s1 \<and> rotateCW s1 = Inr s2
           \<and> masterId s2 = masterId s \<and> stackIds s2 = stackIds s"
proof -
  from assms have ne: "stackIds s \<noteq> []" by auto
  obtain s1 where s1: "rotateCCW s = Inr s1" "masterId s1 = last (stackIds s)"
      "stackIds s1 = masterId s # butlast (stackIds s)"
    using rotateCCW_result [OF assms] by blast
  from s1(3) assms have "2 \<le> length (stackIds s1)" by simp
  then obtain s2 where s2: "rotateCW s1 = Inr s2" "masterId s2 = hd (stackIds s1)"
      "stackIds s2 = tl (stackIds s1) @ [masterId s1]"
    using rotateCW_result [of s1] by blast
  from s1 s2 ne have "masterId s2 = masterId s" "stackIds s2 = stackIds s"
    by simp_all
  with s1(1) s2(1) show ?thesis by blast
qed

theorem rotateCCW_then_rotateCW_witness:
  "2 \<le> length (stackIds \<lparr>con = [], masterId = 3, stackIds = [1, 2], masterWidth = None, stackLayout = None\<rparr>)
   \<and> (\<exists>s1 s2. rotateCCW \<lparr>con = [], masterId = 3, stackIds = [1, 2], masterWidth = None, stackLayout = None\<rparr> = Inr s1
        \<and> rotateCW s1 = Inr s2 \<and> masterId s2 = 3 \<and> stackIds s2 = [1, 2])"
  using rotateCCW_then_rotateCW
    [of "\<lparr>con = [], masterId = 3, stackIds = [1, 2], masterWidth = None, stackLayout = None\<rparr>"]
  by simp

subsection \<open>Navigation without a focused window\<close>

text \<open>
  C6, as the code has it. \<^verbatim>\<open>moveUp\<close>, \<^verbatim>\<open>moveDown\<close> and \<^verbatim>\<open>swapMaster\<close> return the state they were
  given, with no command sent, when no window is focused, called directly or through their
  bindings. \<^verbatim>\<open>rotateCCW\<close> and \<^verbatim>\<open>rotateCW\<close> never ask for the focused window: whatever the
  compositor reports as focused, their bindings run the rotation.
\<close>

theorem navigation_without_focus:
  "moveUp None s = Inr s \<and> moveDown None s = Inr s \<and> swapMaster None s = Inr s
   \<and> onBinding None ''nop swlm move up'' s = Inr s
   \<and> onBinding None ''nop swlm move down'' s = Inr s
   \<and> onBinding None ''nop swlm swap master'' s = Inr s
   \<and> onBinding focused ''nop swlm rotate ccw'' s = rotateCCW s
   \<and> onBinding focused ''nop swlm move left'' s = rotateCCW s
   \<and> onBinding focused ''nop swlm rotate cw'' s = rotateCW s
   \<and> onBinding focused ''nop swlm move right'' s = rotateCW s"
  by (simp add: moveUp_def moveDown_def swapMaster_def onBinding_def)

text \<open>
  With master 3, stack [1, 2] and no focused window, the binding of \<^verbatim>\<open>rotateCCW\<close> sends four
  commands and leaves master 2 and stack [3, 1].
\<close>

theorem rotate_without_focus_counterexample:
  "onBinding None ''nop swlm rotate ccw''
     \<lparr>con = [], masterId = 3, stackIds = [1, 2], masterWidth = None, stackLayout = None\<rparr>
   = Inr \<lparr>con = [''[con_id=2] swap container with con_id 3'',
                  ''[con_id=1] mark --add move_target'',
                  ''[con_id=3] move container to mark move_target'',
                  ''[con_id=1] unmark move_target''],
           masterId = 2, stackIds = [3, 1], masterWidth = None, stackLayout = None\<rparr>"
  by (simp add: onBinding_def rotateCCW_def deque_pop_def deque_get_first Let_def
      moveWindow_def command_def swap_command_def str_int_def str_nat.simps digit_def)

subsection \<open>Moving the focused window down\<close>

lemma moveDown_loop_skip:
  "\<forall>j\<in>set js. j < length (stackIds s) \<and> stackIds s ! j \<noteq> fid \<Longrightarrow>
     moveDown_loop fid (js @ rest) s = moveDown_loop fid rest s"
  by (induction js) (simp_all add: deque_get_nat)

lemma moveDown_loop_found:
  assumes "Suc k < length (stackIds s)" and "stackIds s ! Suc k = fid"
  shows "moveDown_loop fid (Suc k # rest) s
         = Inr ((command (swap_command fid (stackIds s ! k)) s)
                  \<lparr>stackIds := (stackIds s)[Suc k := stackIds s ! k, k := fid]\<rparr>)"
proof -
  have get: "deque_get (stackIds s) (int (Suc k)) = Inr fid"
    using assms deque_get_nat [of "stackIds s" "Suc k"] by simp
  have getp: "deque_get (stackIds s) (int (Suc k) - 1) = Inr (stackIds s ! k)"
    using assms deque_get_pred [of "stackIds s" k] by simp
  have set1: "deque_set (stackIds s) (int (Suc k)) (stackIds s ! k)
              = Inr ((stackIds s)[Suc k := stackIds s ! k])"
    using assms deque_set_nat [of "stackIds s" "Suc k"] by simp
  have set2: "deque_set ((stackIds s)[Suc k := stackIds s ! k]) (int (Suc k) - 1) fid
              = Inr ((stackIds s)[Suc k := stackIds s ! k, k := fid])"
    using assms deque_set_pred [of "(stackIds s)[Suc k := stackIds s ! k]" k] by simp
  show ?thesis
    using get getp set1 set2 by (simp add: Let_def del: of_nat_Suc)
qed

lemma moveDown_loop_swap:
  assumes d: "stackIds s = xs @ y # fid # zs" and xs: "fid \<notin> set xs" and y: "y \<noteq> fid"
  shows "moveDown_loop fid [0 ..< length (stackIds s)] s
         = Inr ((command (swap_command fid y) s)\<lparr>stackIds := xs @ fid # y # zs\<rparr>)"
proof -
  let ?k = "length xs"
  have len: "Suc ?k < length (stackIds s)" using d by simp
  have idx: "[0 ..< length (stackIds s)] = [0 ..< Suc ?k] @ Suc ?k # [Suc (Suc ?k) ..< length (stackIds s)]"
    using len by (metis le0 less_imp_le_nat upt_add_eq_append upt_conv_Cons le_add_diff_inverse add_0)
  have before: "\<forall>j\<in>set [0 ..< Suc ?k]. j < length (stackIds s) \<and> stackIds s ! j \<noteq> fid"
  proof
    fix j assume "j \<in> set [0 ..< Suc ?k]"
    then have j: "j < Suc ?k" by auto
    show "j < length (stackIds s) \<and> stackIds s ! j \<noteq> fid"
    proof (cases "j < ?k")
      case True
      then have "stackIds s ! j = xs ! j" using d by (simp add: nth_append)
      moreover have "xs ! j \<in> set xs" using True by simp
      ultimately show ?thesis using xs len j by auto
    next
      case False
      with j have "j = ?k" by simp
      then show ?thesis using d y len by (simp add: nth_append)
    qed
  qed
  have at: "stackIds s ! Suc ?k = fid" "stackIds s ! ?k = y"
    using d by (simp_all add: nth_append)
  have upd: "(stackIds s)[Suc ?k := y, ?k := fid] = xs @ fid # y # zs"
    using d by (simp add: list_update_append)
  show ?thesis
    using moveDown_loop_skip [OF before, of "Suc ?k # [Suc (Suc ?k) ..< length (stackIds s)]"]
      moveDown_loop_found [OF len at(1)] idx at(2) upd
    by simp
qed

text \<open>
  C9, as the code has it, for a focused window \<open>fw\<close>. With fewer than two identifiers in
  the stack \<^verbatim>\<open>moveDown\<close> returns the state it was given. With two or more: if the focused
  window is the bottom of the stack nothing changes; otherwise, if it is the master, the
  master becomes the old top of the stack and the old master the new top; otherwise, if it
  is in the stack, it changes places with its neighbour towards the bottom (the stack
  \<open>xs @ y # fw # zs\<close>, split at the first occurrence of the focused identifier, becomes
  \<open>xs @ fw # y # zs\<close>) and the master stays. Each exchange sends one swap command.
\<close>

theorem moveDown_cases:
  "(length (stackIds s) < 2 \<longrightarrow> moveDown (Some fw) s = Inr s)
   \<and> (2 \<le> length (stackIds s) \<and> con_id fw = hd (stackIds s) \<longrightarrow> moveDown (Some fw) s = Inr s)
   \<and> (2 \<le> length (stackIds s) \<and> con_id fw \<noteq> hd (stackIds s) \<and> con_id fw = masterId s \<longrightarrow>
        (\<exists>s'. moveDown (Some fw) s = Inr s' \<and> masterId s' = last (stackIds s)
           \<and> stackIds s' = butlast (stackIds s) @ [masterId s]
           \<and> con s' = con s @ [swap_command (masterId s) (last (stackIds s))]))
   \<and> (con_id fw \<noteq> masterId s \<and> stackIds s = xs @ y # con_id fw # zs
        \<and> con_id fw \<notin> set xs \<and> y \<noteq> con_id fw \<longrightarrow>
        (\<exists>s'. moveDown (Some fw) s = Inr s' \<and> masterId s' = masterId s
           \<and> stackIds s' = xs @ con_id fw # y # zs
           \<and> con s' = con s @ [swap_command (con_id fw) y]))"
proof (intro conjI impI)
  assume "length (stackIds s) < 2"
  then show "moveDown (Some fw) s = Inr s" by (simp add: moveDown_def)
next
  assume "2 \<le> length (stackIds s) \<and> con_id fw = hd (stackIds s)"
  then show "moveDown (Some fw) s = Inr s"
    by (auto simp: moveDown_def deque_get_first)
next
  assume a: "2 \<le> length (stackIds s) \<and> con_id fw \<noteq> hd (stackIds s) \<and> con_id fw = masterId s"
  then have "stackIds s \<noteq> []" by auto
  with a show "\<exists>s'. moveDown (Some fw) s = Inr s' \<and> masterId s' = last (stackIds s)
           \<and> stackIds s' = butlast (stackIds s) @ [masterId s]
           \<and> con s' = con s @ [swap_command (masterId s) (last (stackIds s))]"
    by (simp add: moveDown_def deque_get_first deque_get_last deque_pop_def Let_def)
next
  assume a: "con_id fw \<noteq> masterId s \<and> stackIds s = xs @ y # con_id fw # zs
        \<and> con_id fw \<notin> set xs \<and> y \<noteq> con_id fw"
  then have d: "stackIds s = xs @ y # con_id fw # zs" and xs: "con_id fw \<notin> set xs"
    and y: "y \<noteq> con_id fw" and m: "con_id fw \<noteq> masterId s" by simp_all
  have len: "\<not> length (stackIds s) < 2" using d by simp
  have ne: "stackIds s \<noteq> []" using d by simp
  have bottom: "con_id fw \<noteq> hd (stackIds s)"
    using d xs y by (cases xs) auto
  have "moveDown (Some fw) s = moveDown_loop (con_id fw) [0 ..< length (stackIds s)] s"
    using len ne bottom m by (simp add: moveDown_def deque_get_first)
  then show "\<exists>s'. moveDown (Some fw) s = Inr s' \<and> masterId s' = masterId s
           \<and> stackIds s' = xs @ con_id fw # y # zs
           \<and> con s' = con s @ [swap_command (con_id fw) y]"
    using moveDown_loop_swap [OF d xs y] by simp
qed

theorem moveDown_cases_witness:
  "moveDown (Some (leaf 2)) \<lparr>con = [], masterId = 2, stackIds = [1], masterWidth = None, stackLayout = None\<rparr>
     = Inr \<lparr>con = [], masterId = 2, stackIds = [1], masterWidth = None, stackLayout = None\<rparr>
   \<and> moveDown (Some (leaf 1)) \<lparr>con = [], masterId = 3, stackIds = [1, 2, 4], masterWidth = None, stackLayout = None\<rparr>
     = Inr \<lparr>con = [], masterId = 3, stackIds = [1, 2, 4], masterWidth = None, stackLayout = None\<rparr>
   \<and> (\<exists>s'. moveDown (Some (leaf 3)) \<lparr>con = [], masterId = 3, stackIds = [1, 2, 4], masterWidth = None, stackLayout = None\<rparr> = Inr s'
         \<and> masterId s' = 4 \<and> stackIds s' = [1, 2, 3])
   \<and> (\<exists>s'. moveDown (Some (leaf 2)) \<lparr>con = [], masterId = 3, stackIds = [1, 2, 4], masterWidth = None, stackLayout = None\<rparr> = Inr s'
         \<and> masterId s' = 3 \<and> stackIds s' = [2, 1, 4])"
  using
    moveDown_cases [where s = "\<lparr>con = [], masterId = 2, stackIds = [1], masterWidth = None, stackLayout = None\<rparr>"
      and fw = "leaf 2" and xs = "[]" and y = 0 and zs = "[]"]
    moveDown_cases [where s = "\<lparr>con = [], masterId = 3, stackIds = [1, 2, 4], masterWidth = None, stackLayout = None\<rparr>"
      and fw = "leaf 1" and xs = "[]" and y = 0 and zs = "[]"]
    moveDown_cases [where s = "\<lparr>con = [], masterId = 3, stackIds = [1, 2, 4], masterWidth = None, stackLayout = None\<rparr>"
      and fw = "leaf 3" and xs = "[]" and y = 0 and zs = "[]"]
    moveDown_cases [where s = "\<lparr>con = [], masterId = 3, stackIds = [1, 2, 4], masterWidth = None, stackLayout = None\<rparr>"
      and fw = "leaf 2" and xs = "[]" and y = 1 and zs = "[4]"]
  by (auto simp: leaf_def)

text \<open>
  With master 2 focused and the stack [1], \<^verbatim>\<open>moveDown\<close> changes nothing and sends nothing:
  the first statement of the method returns when the stack has fewer than two identifiers.
\<close>

theorem moveDown_two_windows_counterexample:
  "moveDown (Some (leaf 2)) \<lparr>con = [], masterId = 2, stackIds = [1], masterWidth = None, stackLayout = None\<rparr>
   = Inr \<lparr>con = [], masterId = 2, stackIds = [1], masterWidth = None, stackLayout = None\<rparr>"
  by (simp add: moveDown_def)

subsection \<open>A non-empty stack has a master\<close>

lemma moveUp_swap_result:
  "moveUp_swap s = Inr s' \<Longrightarrow>
     stackIds s \<noteq> [] \<and> masterId s' = last (stackIds s)
     \<and> stackIds s' = butlast (stackIds s) @ [masterId s]"
  by (auto simp: moveUp_swap_def deque_pop_def Let_def split: if_splits)

lemma moveUp_loop_shape:
  "moveUp_loop fid js s = Inr s' \<Longrightarrow>
     masterId s' = masterId s \<and> set (stackIds s') \<subseteq> set (stackIds s)
     \<and> length (stackIds s') = length (stackIds s)"
proof (induction js)
  case Nil
  then show ?case by simp
next
  case (Cons i js)
  show ?case
  proof (cases "deque_get (stackIds s) (int i) = Inr fid")
    case True
    then have fid: "fid \<in> set (stackIds s)" by (rule deque_get_mem)
    from Cons.prems True obtain a d1 d2 where
      a: "deque_get (stackIds s) (int i + 1) = Inr a"
      and d1: "deque_set (stackIds s) (int i) a = Inr d1"
      and d2: "deque_set d1 (int i + 1) fid = Inr d2"
      and s': "s' = (command (swap_command fid a) s)\<lparr>stackIds := d2\<rparr>"
      by (auto simp: Let_def split: sum.splits)
    from a have "a \<in> set (stackIds s)" by (rule deque_get_mem)
    with fid deque_set_shape [OF d1] deque_set_shape [OF d2] s'
    show ?thesis by auto
  next
    case False
    with Cons.prems have "moveUp_loop fid js s = Inr s'"
      by (auto split: sum.splits if_splits)
    then show ?thesis by (rule Cons.IH)
  qed
qed

lemma moveDown_loop_shape:
  "moveDown_loop fid js s = Inr s' \<Longrightarrow>
     masterId s' = masterId s \<and> set (stackIds s') \<subseteq> set (stackIds s)
     \<and> length (stackIds s') = length (stackIds s)"
proof (induction js)
  case Nil
  then show ?case by simp
next
  case (Cons i js)
  show ?case
  proof (cases "deque_get (stackIds s) (int i) = Inr fid")
    case True
    then have fid: "fid \<in> set (stackIds s)" by (rule deque_get_mem)
    from Cons.prems True obtain a d1 d2 where
      a: "deque_get (stackIds s) (int i - 1) = Inr a"
      and d1: "deque_set (stackIds s) (int i) a = Inr d1"
      and d2: "deque_set d1 (int i - 1) fid = Inr d2"
      and s': "s' = (command (swap_command fid a) s)\<lparr>stackIds := d2\<rparr>"
      by (auto simp: Let_def split: sum.splits)
    from a have "a \<in> set (stackIds s)" by (rule deque_get_mem)
    with fid deque_set_shape [OF d1] deque_set_shape [OF d2] s'
    show ?thesis by auto
  next
    case False
    with Cons.prems have "moveDown_loop fid js s = Inr s'"
      by (auto split: sum.splits if_splits)
    then show ?thesis by (rule Cons.IH)
  qed
qed

lemma swapMaster_loop_shape:
  "swapMaster_loop fid js s = Inr s' \<Longrightarrow>
     (masterId s' = masterId s \<and> stackIds s' = stackIds s)
     \<or> (masterId s' \<in> set (stackIds s)
        \<and> set (stackIds s') \<subseteq> insert (masterId s) (set (stackIds s))
        \<and> length (stackIds s') = length (stackIds s))"
proof (induction js)
  case Nil
  then show ?case by simp
next
  case (Cons i js)
  show ?case
  proof (cases "deque_get (stackIds s) (int i) = Inr fid")
    case True
    then have fid: "fid \<in> set (stackIds s)" by (rule deque_get_mem)
    from Cons.prems True obtain d1 where
      d1: "deque_set (stackIds s) (int i) (masterId s) = Inr d1"
      and s': "masterId s' = fid" "stackIds s' = d1"
      by (auto simp: Let_def split: sum.splits)
    with fid deque_set_shape [OF d1] show ?thesis by auto
  next
    case False
    with Cons.prems have "swapMaster_loop fid js s = Inr s'"
      by (auto split: sum.splits if_splits)
    then show ?thesis by (rule Cons.IH)
  qed
qed

lemma last_nonzero: "d \<noteq> [] \<Longrightarrow> (0::int) \<notin> set d \<Longrightarrow> last d \<noteq> 0"
  by (metis last_in_set)

lemma hd_nonzero: "d \<noteq> [] \<Longrightarrow> (0::int) \<notin> set d \<Longrightarrow> hd d \<noteq> 0"
  by (metis hd_in_set)

lemma butlast_subset: "set (butlast d) \<subseteq> set d"
  by (auto dest: in_set_butlastD)

lemma pushWindow_tracked:
  assumes "tracked_nonzero s" and "w \<noteq> 0" and "pushWindow w s = Inr s'"
  shows "tracked_nonzero s'"
  using assms pushWindow_result [of w s] by (auto simp: tracked_nonzero_def)

lemma popWindow_tracked:
  assumes "tracked_nonzero s" and "popWindow s = Inr s'"
  shows "tracked_nonzero s'"
proof -
  from assms(2) popWindow_result [of s]
  have m: "masterId s' = (if stackIds s = [] then 0 else last (stackIds s))"
    and d: "stackIds s' = butlast (stackIds s)" by auto
  show ?thesis
  proof (cases "stackIds s = []")
    case True
    with d show ?thesis by (simp add: tracked_nonzero_def)
  next
    case False
    with assms(1) have "last (stackIds s) \<noteq> 0"
      by (simp add: tracked_nonzero_def last_nonzero)
    with assms(1) m d False butlast_subset [of "stackIds s"] show ?thesis
      by (auto simp: tracked_nonzero_def)
  qed
qed

lemma removeWindow_tracked:
  assumes "tracked_nonzero s" and "removeWindow w s = Inr s'"
  shows "tracked_nonzero s'"
proof (cases "masterId s = w")
  case True
  with assms(2) have "popWindow s = Inr s'" by (simp add: removeWindow_def)
  with assms(1) show ?thesis by (rule popWindow_tracked)
next
  case False
  with assms(2) removeWindow_result [of w s]
  have "masterId s' = masterId s" "stackIds s' = remove1 w (stackIds s)" by auto
  moreover have "set (remove1 w (stackIds s)) \<subseteq> set (stackIds s)" by (rule set_remove1_subset)
  moreover have "remove1 w (stackIds s) \<noteq> [] \<Longrightarrow> stackIds s \<noteq> []" by auto
  ultimately show ?thesis using assms(1) by (auto simp: tracked_nonzero_def)
qed

lemma swap_top_tracked:
  assumes "tracked_nonzero s" and "stackIds s \<noteq> []"
    and "masterId s' = last (stackIds s)" and "stackIds s' = butlast (stackIds s) @ [masterId s]"
  shows "tracked_nonzero s'"
proof -
  from assms(1,2) have "last (stackIds s) \<noteq> 0"
    by (simp add: tracked_nonzero_def last_nonzero)
  with assms butlast_subset [of "stackIds s"] show ?thesis
    by (auto simp: tracked_nonzero_def)
qed

lemma same_elements_tracked:
  assumes "tracked_nonzero s" and "masterId s' = masterId s"
    and "set (stackIds s') \<subseteq> set (stackIds s)" and "length (stackIds s') = length (stackIds s)"
  shows "tracked_nonzero s'"
proof -
  from assms(4) have "stackIds s' = [] \<longleftrightarrow> stackIds s = []" by (metis length_0_conv)
  with assms(1-3) show ?thesis by (auto simp: tracked_nonzero_def)
qed

lemma moveUp_tracked:
  assumes "tracked_nonzero s" and "moveUp focused s = Inr s'"
  shows "tracked_nonzero s'"
proof (cases focused)
  case None
  with assms show ?thesis by (simp add: moveUp_def)
next
  case (Some fw)
  from assms(2) Some consider "moveUp_swap s = Inr s'"
    | "moveUp_loop (con_id fw) [0 ..< length (stackIds s)] s = Inr s'"
    by (auto simp: moveUp_def split: if_splits sum.splits)
  then show ?thesis
  proof cases
    case 1
    from moveUp_swap_result [OF 1] assms(1) show ?thesis
      by (auto intro: swap_top_tracked)
  next
    case 2
    from moveUp_loop_shape [OF 2] assms(1) show ?thesis
      by (auto intro: same_elements_tracked)
  qed
qed

lemma moveDown_unfold:
  assumes "\<not> length (stackIds s) < 2"
  shows "moveDown (Some fw) s =
    (if con_id fw = hd (stackIds s) then Inr s
     else if con_id fw = masterId s then
       Inr ((command (swap_command (con_id fw) (last (stackIds s))) s)
              \<lparr>masterId := last (stackIds s), stackIds := butlast (stackIds s) @ [con_id fw]\<rparr>)
     else moveDown_loop (con_id fw) [0 ..< length (stackIds s)] s)"
proof -
  from assms have ne: "stackIds s \<noteq> []" by auto
  with assms show ?thesis
    by (simp add: moveDown_def deque_get_first deque_get_last deque_pop_def Let_def)
qed

lemma moveDown_tracked:
  assumes "tracked_nonzero s" and "moveDown focused s = Inr s'"
  shows "tracked_nonzero s'"
proof (cases focused)
  case None
  then have "moveDown focused s = Inr s" by (simp add: moveDown_def)
  with assms show ?thesis by simp
next
  case (Some fw)
  show ?thesis
  proof (cases "length (stackIds s) < 2")
    case True
    then have "moveDown focused s = Inr s" by (simp add: moveDown_def)
    with assms show ?thesis by simp
  next
    case False
    then have ne: "stackIds s \<noteq> []" by auto
    note unfold = moveDown_unfold [OF False, of fw]
    consider "con_id fw = hd (stackIds s)"
      | "con_id fw \<noteq> hd (stackIds s)" "con_id fw = masterId s"
      | "con_id fw \<noteq> hd (stackIds s)" "con_id fw \<noteq> masterId s"
      by blast
    then show ?thesis
    proof cases
      case 1
      with unfold Some assms show ?thesis by simp
    next
      case 2
      with unfold Some assms(2)
      have "masterId s' = last (stackIds s)"
        "stackIds s' = butlast (stackIds s) @ [masterId s]" by auto
      with assms(1) ne show ?thesis by (rule swap_top_tracked)
    next
      case 3
      with unfold Some assms(2)
      have "moveDown_loop (con_id fw) [0 ..< length (stackIds s)] s = Inr s'" by simp
      from moveDown_loop_shape [OF this] assms(1) show ?thesis
        by (blast intro: same_elements_tracked)
    qed
  qed
qed

lemma rotateCCW_tracked:
  assumes "tracked_nonzero s" and "rotateCCW s = Inr s'"
  shows "tracked_nonzero s'"
proof (cases "length (stackIds s) < 2")
  case True
  with assms show ?thesis by (simp add: rotateCCW_short)
next
  case False
  then have len: "2 \<le> length (stackIds s)" by simp
  then have ne: "stackIds s \<noteq> []" by auto
  with assms(1) have "last (stackIds s) \<noteq> 0"
    by (simp add: tracked_nonzero_def last_nonzero)
  with rotateCCW_result [OF len] assms ne butlast_subset [of "stackIds s"]
  show ?thesis by (auto simp: tracked_nonzero_def)
qed

lemma rotateCW_tracked:
  assumes "tracked_nonzero s" and "rotateCW s = Inr s'"
  shows "tracked_nonzero s'"
proof (cases "length (stackIds s) < 2")
  case True
  with assms show ?thesis by (simp add: rotateCW_short)
next
  case False
  then have len: "2 \<le> length (stackIds s)" by simp
  then have ne: "stackIds s \<noteq> []" by auto
  with assms(1) have "hd (stackIds s) \<noteq> 0"
    by (simp add: tracked_nonzero_def hd_nonzero)
  moreover have "set (tl (stackIds s)) \<subseteq> set (stackIds s)"
    using ne by (auto dest: list.set_sel(2))
  ultimately show ?thesis
    using rotateCW_result [OF len] assms ne by (auto simp: tracked_nonzero_def)
qed

lemma swapMaster_unfold:
  assumes "stackIds s \<noteq> []"
  shows "swapMaster (Some fw) s =
    (if con_id fw = masterId s then
       Inr ((command (swap_command (last (stackIds s)) (masterId s)) (s\<lparr>stackIds := butlast (stackIds s)\<rparr>))
              \<lparr>stackIds := butlast (stackIds s) @ [masterId s], masterId := last (stackIds s)\<rparr>)
     else swapMaster_loop (con_id fw) [0 ..< length (stackIds s)] s)"
  using assms by (simp add: swapMaster_def deque_pop_def Let_def)

lemma swapMaster_tracked:
  assumes "tracked_nonzero s" and "swapMaster focused s = Inr s'"
  shows "tracked_nonzero s'"
proof (cases focused)
  case None
  then have "swapMaster focused s = Inr s" by (simp add: swapMaster_def)
  with assms show ?thesis by simp
next
  case (Some fw)
  show ?thesis
  proof (cases "stackIds s = []")
    case True
    then have "swapMaster focused s = Inr s" by (simp add: swapMaster_def)
    with assms show ?thesis by simp
  next
    case ne: False
    note unfold = swapMaster_unfold [OF ne, of fw]
    show ?thesis
    proof (cases "con_id fw = masterId s")
      case True
      with unfold Some assms(2)
      have "masterId s' = last (stackIds s)"
        "stackIds s' = butlast (stackIds s) @ [masterId s]" by auto
      with assms(1) ne show ?thesis by (rule swap_top_tracked)
    next
      case False
      with unfold Some assms(2)
      have loop: "swapMaster_loop (con_id fw) [0 ..< length (stackIds s)] s = Inr s'" by simp
      from assms(1) ne have nz: "masterId s \<noteq> 0" "0 \<notin> set (stackIds s)"
        by (auto simp: tracked_nonzero_def)
      from swapMaster_loop_shape [OF loop] show ?thesis
      proof
        assume "masterId s' = masterId s \<and> stackIds s' = stackIds s"
        with assms(1) show ?thesis by (simp add: tracked_nonzero_def)
      next
        assume a: "masterId s' \<in> set (stackIds s)
          \<and> set (stackIds s') \<subseteq> insert (masterId s) (set (stackIds s))
          \<and> length (stackIds s') = length (stackIds s)"
        with nz have "masterId s' \<noteq> 0" by auto
        moreover from a nz have "0 \<notin> set (stackIds s')" by auto
        ultimately show ?thesis by (simp add: tracked_nonzero_def)
      qed
    qed
  qed
qed

lemma perform_tracked:
  assumes "tracked_nonzero s" and "op \<noteq> PushWindow 0" and "perform op s = Inr s'"
  shows "tracked_nonzero s'"
proof (cases op)
  case (PushWindow w)
  with assms(2,3) have "w \<noteq> 0" "pushWindow w s = Inr s'" by simp_all
  with assms(1) show ?thesis by (rule pushWindow_tracked)
next
  case (RemoveWindow w)
  with assms(3) have "removeWindow w s = Inr s'" by simp
  with assms(1) show ?thesis by (rule removeWindow_tracked)
next
  case PopWindow
  with assms(3) have "popWindow s = Inr s'" by simp
  with assms(1) show ?thesis by (rule popWindow_tracked)
next
  case (MoveUp f)
  with assms(3) have "moveUp f s = Inr s'" by simp
  with assms(1) show ?thesis by (rule moveUp_tracked)
next
  case (MoveDown f)
  with assms(3) have "moveDown f s = Inr s'" by simp
  with assms(1) show ?thesis by (rule moveDown_tracked)
next
  case RotateCCW
  with assms(3) have "rotateCCW s = Inr s'" by simp
  with assms(1) show ?thesis by (rule rotateCCW_tracked)
next
  case RotateCW
  with assms(3) have "rotateCW s = Inr s'" by simp
  with assms(1) show ?thesis by (rule rotateCW_tracked)
next
  case (SwapMaster f)
  with assms(3) have "swapMaster f s = Inr s'" by simp
  with assms(1) show ?thesis by (rule swapMaster_tracked)
qed

lemma step_tracked:
  assumes "tracked_nonzero s" and "op \<noteq> PushWindow 0"
  shows "tracked_nonzero (step s op)"
  using assms perform_tracked [of s op]
  by (auto simp: step_def split: sum.splits)

lemma run_tracked:
  "tracked_nonzero s \<Longrightarrow> PushWindow 0 \<notin> set ops \<Longrightarrow> tracked_nonzero (run ops s)"
proof (induction ops arbitrary: s)
  case Nil
  then show ?case by (simp add: run_def)
next
  case (Cons op ops)
  from Cons.prems(2) have op: "op \<noteq> PushWindow 0" and rest: "PushWindow 0 \<notin> set ops"
    by auto
  from Cons.prems(1) op have "tracked_nonzero (step s op)" by (rule step_tracked)
  then have "tracked_nonzero (run ops (step s op))" using rest by (rule Cons.IH)
  then show ?case by (simp add: run_def)
qed

text \<open>
  C1, as the code has it. In every state reached from the empty model by a sequence of
  \<^verbatim>\<open>pushWindow\<close>, \<^verbatim>\<open>removeWindow\<close>, \<^verbatim>\<open>popWindow\<close>, \<^verbatim>\<open>moveUp\<close>, \<^verbatim>\<open>moveDown\<close>, \<^verbatim>\<open>rotateCCW\<close>,
  \<^verbatim>\<open>rotateCW\<close> and \<^verbatim>\<open>swapMaster\<close> calls in which no pushed identifier is 0, a non-empty
  stack comes with a non-empty master slot.
\<close>

theorem master_present_when_stack_nonempty:
  assumes "PushWindow 0 \<notin> set ops" and "stackIds (run ops (new_manager w l)) \<noteq> []"
  shows "masterId (run ops (new_manager w l)) \<noteq> 0"
proof -
  have "tracked_nonzero (new_manager w l)"
    by (simp add: tracked_nonzero_def new_manager_def)
  then have "tracked_nonzero (run ops (new_manager w l))"
    using assms(1) by (rule run_tracked)
  with assms(2) show ?thesis by (simp add: tracked_nonzero_def)
qed

theorem master_present_when_stack_nonempty_witness:
  "PushWindow 0 \<notin> set [PushWindow 1, PushWindow 2, PushWindow 3, MoveUp (Some (leaf 2)), RemoveWindow 1]
   \<and> stackIds (run [PushWindow 1, PushWindow 2, PushWindow 3, MoveUp (Some (leaf 2)), RemoveWindow 1]
        (new_manager None None)) \<noteq> []
   \<and> masterId (run [PushWindow 1, PushWindow 2, PushWindow 3, MoveUp (Some (leaf 2)), RemoveWindow 1]
        (new_manager None None)) \<noteq> 0"
proof -
  have a: "PushWindow 0 \<notin> set [PushWindow 1, PushWindow 2, PushWindow 3, MoveUp (Some (leaf 2)), RemoveWindow 1]"
    by simp
  have b: "stackIds (run [PushWindow 1, PushWindow 2, PushWindow 3, MoveUp (Some (leaf 2)), RemoveWindow 1]
        (new_manager None None)) \<noteq> []"
    by (simp add: run_def step_def new_manager_def pushWindow_def removeWindow_def moveUp_def
        moveUp_swap_def popWindow_def deque_pop_def deque_remove_def deque_get_first
        deque_get_last Let_def
        setMasterWidth_def leaf_def)
  from a b master_present_when_stack_nonempty [OF a b] show ?thesis by blast
qed

text \<open>
  Pushing identifier 1 and then identifier 0 leaves the stack [1] under a master slot that
  holds 0, the value of the empty slot.
\<close>

theorem push_zero_counterexample:
  "stackIds (run [PushWindow 1, PushWindow 0] (new_manager None None)) \<noteq> []
   \<and> masterId (run [PushWindow 1, PushWindow 0] (new_manager None None)) = 0"
  by (simp add: run_def step_def new_manager_def pushWindow_def deque_get_first Let_def
      setMasterWidth_def)

subsection \<open>Where the code leaves its contract\<close>

text \<open>
  C2. Every identifier should occupy at most one position among the master slot and the
  stack, also after a window-added notification for an identifier that is already tracked.
  \<^verbatim>\<open>windowAdded\<close> pushes the focused window without asking whether the model holds it
  (the reconciliation loop does ask, before each push): two notifications with window 1
  focused leave 1 in the master slot and in the stack.
\<close>

theorem windowAdded_twice_duplicates:
  "model (and_then (windowAdded (Some (leaf 1)) (new_manager None None))
            (windowAdded (Some (leaf 1)))) = Inr (1, [1])"
  by (simp add: model_def and_then_def windowAdded_def isExcluded_def leaf_def new_manager_def
      pushWindow_def deque_get_first Let_def setMasterWidth_def)

text \<open>
  C5. No operation should raise. \<^verbatim>\<open>moveUp\<close> with a focused window and an empty stack takes
  the branch for fewer than two stack elements and pops the empty deque: the call, and the
  binding that dispatches to it, end in IndexError. \<^verbatim>\<open>moveDown\<close>, \<^verbatim>\<open>swapMaster\<close> and the
  rotations return early on a short stack. Removing an untracked identifier does return
  the state unchanged.
\<close>

theorem moveUp_empty_stack_raises:
  "moveUp (Some fw) (s\<lparr>stackIds := []\<rparr>) = Inl IndexError
   \<and> onBinding (Some fw) ''nop swlm move up'' (s\<lparr>stackIds := []\<rparr>) = Inl IndexError
   \<and> moveUp (Some (leaf 1)) \<lparr>con = [], masterId = 1, stackIds = [], masterWidth = None, stackLayout = None\<rparr>
       = Inl IndexError"
  by (simp add: onBinding_def moveUp_def moveUp_swap_def deque_pop_def)

lemma removeWindow_untracked:
  "windowId \<noteq> masterId s \<Longrightarrow> windowId \<notin> set (stackIds s) \<Longrightarrow> removeWindow windowId s = Inr s"
  by (simp add: removeWindow_def deque_remove_def)

text \<open>
  C8. The reconciliation pass should test and push each child leaf of a nested container.
  Its inner loop iterates over the children and reads the parent: with one container 10
  holding the leaves 11 and 12, the model after construction has master 10 and an empty
  stack, and neither 11 nor 12 is tracked.
\<close>

theorem reconciliation_pushes_parent:
  "model (manager_init None None
      (Some (Con 11 ''con'' None
         (Some [Con 10 ''con'' None (Some [])
                  [leaf 11, leaf 12]])
         []))) = Inr (10, [])"
  by (simp add: model_def manager_init_def arrangeExistingLayout_def isExcluded_def leaf_def
      new_manager_def setStackLayout_def pushWindow_def Let_def)

end
